theory Spec2Isabelle
  imports Complex_Main "HOL-Library.Word"
begin

section \<open>Data model of munsell.go\<close>

text \<open>
  \<^verbatim>\<open>type Color int\<close> with the ten constants declared by \<^verbatim>\<open>iota\<close>, in the order of the
  source.
\<close>

datatype Color =
  Unknown | White | Black | Red | Orange | Yellow | Green | LightBlue | Blue | Purple

text \<open>
  \<^verbatim>\<open>type RGBComponents struct { Red, Green, Blue uint8 }\<close>. The field names carry the
  prefix \<open>rgb\<close> because \<open>Red\<close>, \<open>Green\<close> and \<open>Blue\<close> are already the constants of
  \<open>Color\<close>.
\<close>

record RGBComponents =
  rgbRed :: "8 word"
  rgbGreen :: "8 word"
  rgbBlue :: "8 word"

text \<open>
  \<^verbatim>\<open>type HSLComponents struct { Hue, Saturation, Lightness float64 }\<close>. A finite float64
  is a real number, and the fields are modelled as reals: the values NaN and the two
  infinities are outside this model.
\<close>

record HSLComponents =
  Hue :: real
  Saturation :: real
  Lightness :: real

subsection \<open>Results, errors and panics\<close>

text \<open>
  The error value of \<^verbatim>\<open>strconv.ParseUint\<close> (a \<^verbatim>\<open>*strconv.NumError\<close>): the kind of the
  error and the text that was being parsed.
\<close>

datatype NumError = ErrSyntax string | ErrRange string

text \<open>
  The ways in which a call can end the process: an index or a slice expression out of
  range (a run-time panic), and \<^verbatim>\<open>panic(err)\<close> in \<^verbatim>\<open>getRGBFromHex\<close>.
\<close>

datatype panic = IndexOutOfRange | SliceOutOfRange | PanicErr NumError

text \<open>
  The error value built by \<^verbatim>\<open>fmt.Errorf("invalid hex color code: %s", hexColor)\<close>; it
  carries the text it reports.
\<close>

datatype error = InvalidHexColorCode string

section \<open>The library function \<^verbatim>\<open>strconv.ParseUint(s, 16, 8)\<close>\<close>

text \<open>\<^verbatim>\<open>lower(c)\<close> of package strconv: \<^verbatim>\<open>c | ('x' - 'X')\<close>, on the code of the byte.\<close>

definition lower :: "nat \<Rightarrow> nat" where
  "lower c = or c 32"

text \<open>
  The value of one byte as a digit, as the \<^verbatim>\<open>switch\<close> in the loop of \<^verbatim>\<open>ParseUint\<close>
  computes it (base 16 is not base 0, so an underscore is not skipped); \<open>None\<close> is
  the \<^verbatim>\<open>default\<close> case.
\<close>

definition digitValue :: "char \<Rightarrow> nat option" where
  "digitValue ch =
     (let c = (of_char ch :: nat) in
      if 48 \<le> c \<and> c \<le> 57 then Some (c - 48)
      else if 97 \<le> lower c \<and> lower c \<le> 122 then Some (lower c - 97 + 10)
      else None)"

text \<open>
  The loop of \<^verbatim>\<open>ParseUint\<close> for base 16 and bit size 8: \<open>s0\<close> is the whole text (for the
  error value), \<open>n\<close> the number read so far. The cutoff is \<open>2 ^ 60\<close> and the largest
  value is 255; \<open>n\<close> never exceeds 255, so the unsigned 64-bit arithmetic of the
  source never wraps. With an error \<^verbatim>\<open>ParseUint\<close> also returns a number, which its
  caller in munsell.go never reads: the model returns the error alone.
\<close>

fun parseDigits :: "string \<Rightarrow> nat \<Rightarrow> string \<Rightarrow> NumError + nat" where
  "parseDigits s0 n [] = Inr n"
| "parseDigits s0 n (ch # cs) =
     (case digitValue ch of
        None \<Rightarrow> Inl (ErrSyntax s0)
      | Some d \<Rightarrow>
          if 16 \<le> d then Inl (ErrSyntax s0)
          else if 2 ^ 60 \<le> n then Inl (ErrRange s0)
          else if 255 < n * 16 + d then Inl (ErrRange s0)
          else parseDigits s0 (n * 16 + d) cs)"

text \<open>The empty text is a syntax error; any other text goes through the loop.\<close>

definition ParseUint :: "string \<Rightarrow> NumError + nat" where
  "ParseUint s = (if s = [] then Inl (ErrSyntax s) else parseDigits s 0 s)"

section \<open>Arithmetic of float64\<close>

text \<open>
  Every arithmetic operation of float64 returns the exact result rounded to the
  nearest value with a 53-bit significand, a tie going to the even significand.
  \<open>exponent64 x\<close> is the binary exponent of \<open>x\<close>, not below that of the subnormal
  numbers. No operation of \<^verbatim>\<open>getHSLFromRGB\<close> comes near the largest float64, so the
  overflow to an infinity is not modelled.
\<close>

definition round_half_even :: "real \<Rightarrow> int" where
  "round_half_even q =
     (let n = \<lfloor>q\<rfloor>; d = q - of_int n in
      if d < 1 / 2 then n
      else if 1 / 2 < d then n + 1
      else if even n then n else n + 1)"

definition exponent64 :: "real \<Rightarrow> int" where
  "exponent64 x = max (- 1022) \<lfloor>log 2 \<bar>x\<bar>\<rfloor>"

definition ulp64 :: "real \<Rightarrow> real" where
  "ulp64 x = 2 powr of_int (exponent64 x - 52)"

definition round64 :: "real \<Rightarrow> real" where
  "round64 x = (if x = 0 then 0 else of_int (round_half_even (x / ulp64 x)) * ulp64 x)"

definition fadd :: "real \<Rightarrow> real \<Rightarrow> real" where
  "fadd x y = round64 (x + y)"

definition fsub :: "real \<Rightarrow> real \<Rightarrow> real" where
  "fsub x y = round64 (x - y)"

definition fmul :: "real \<Rightarrow> real \<Rightarrow> real" where
  "fmul x y = round64 (x * y)"

text \<open>The source divides only by 255 and by a chroma it has tested to be non-zero.\<close>

definition fdiv :: "real \<Rightarrow> real \<Rightarrow> real" where
  "fdiv x y = round64 (x / y)"

section \<open>The functions of munsell.go\<close>

text \<open>A slice expression \<^verbatim>\<open>s[lo:hi]\<close> of a string: it panics when out of range.\<close>

definition slice :: "string \<Rightarrow> nat \<Rightarrow> nat \<Rightarrow> panic + string" where
  "slice s lo hi =
     (if lo \<le> hi \<and> hi \<le> length s then Inr (take (hi - lo) (drop lo s))
      else Inl SliceOutOfRange)"

definition getRGBFromHex :: "string \<Rightarrow> panic + RGBComponents" where
  "getRGBFromHex hexColor =
     (case slice hexColor 0 2 of Inl p \<Rightarrow> Inl p | Inr s1 \<Rightarrow>
     (case ParseUint s1 of Inl err \<Rightarrow> Inl (PanicErr err) | Inr red \<Rightarrow>
     (case slice hexColor 2 4 of Inl p \<Rightarrow> Inl p | Inr s2 \<Rightarrow>
     (case ParseUint s2 of Inl err \<Rightarrow> Inl (PanicErr err) | Inr green \<Rightarrow>
     (case slice hexColor 4 6 of Inl p \<Rightarrow> Inl p | Inr s3 \<Rightarrow>
     (case ParseUint s3 of Inl err \<Rightarrow> Inl (PanicErr err) | Inr blue \<Rightarrow>
        Inr \<lparr>rgbRed = of_nat red, rgbGreen = of_nat green, rgbBlue = of_nat blue\<rparr>))))))"

definition getHSLFromRGB :: "RGBComponents \<Rightarrow> HSLComponents" where
  "getHSLFromRGB rgb =
     (let r = fdiv (real (unat (rgbRed rgb))) 255;
          g = fdiv (real (unat (rgbGreen rgb))) 255;
          b = fdiv (real (unat (rgbBlue rgb))) 255;
          mx = max (max r g) b;
          mn = min (min r g) b;
          c = fsub mx mn;
          hue =
            (if c = 0 then 0
             else if mx = r then
               (let segment = fdiv (fsub g b) c;
                    shift = (if segment < 0 then 6 else 0)
                in fadd segment shift)
             else if mx = g then
               (let segment = fdiv (fsub b r) c; shift = 2 in fadd segment shift)
             else if mx = b then
               (let segment = fdiv (fsub r g) c; shift = 4 in fadd segment shift)
             else 0)
      in \<lparr>Hue = fmul hue 60, Saturation = fmul c 100, Lightness = fmul (fadd mx mn) 50\<rparr>)"

definition matchColorFromHSL :: "HSLComponents \<Rightarrow> Color" where
  "matchColorFromHSL hsl =
     (let l = \<lfloor>Lightness hsl\<rfloor>;
          s = \<lfloor>Saturation hsl\<rfloor>;
          h = \<lfloor>Hue hsl\<rfloor>
      in if s \<le> 10 \<and> 90 \<le> l then White
         else if l \<le> 13 then Black
         else if (s \<le> 10 \<and> l \<le> 70) \<or> s = 0 then Black
         else if (0 \<le> h \<and> h \<le> 16) \<or> 346 \<le> h then Red
         else if 16 < h \<and> h \<le> 36 then (if s < 90 then Orange else Orange)
         else if 36 < h \<and> h \<le> 64 then (if s < 90 then Yellow else Yellow)
         else if 64 < h \<and> h \<le> 165 then Green
         else if 165 < h \<and> h \<le> 208 then LightBlue
         else if 208 < h \<and> h \<le> 260 then Blue
         else if 260 < h \<and> h \<le> 290 then Purple
         else if 290 < h \<and> h \<le> 345 then Purple
         else Unknown)"

definition GetColorFromHSL :: "HSLComponents \<Rightarrow> Color" where
  "GetColorFromHSL hsl = matchColorFromHSL hsl"

definition GetColorFromRGB :: "RGBComponents \<Rightarrow> Color" where
  "GetColorFromRGB rgb = matchColorFromHSL (getHSLFromRGB rgb)"

text \<open>
  \<^verbatim>\<open>GetColorFromHex\<close> returns a colour and an error (\<open>None\<close> is \<^verbatim>\<open>nil\<close>), or panics. It
  reads \<^verbatim>\<open>hexColor[0]\<close> before any test of the length, which panics on the empty string.
\<close>

definition GetColorFromHex :: "string \<Rightarrow> panic + Color \<times> error option" where
  "GetColorFromHex hexColor0 =
     (case hexColor0 of
        [] \<Rightarrow> Inl IndexOutOfRange
      | c0 # rest \<Rightarrow>
          (let hexColor = (if c0 = CHR ''#'' then rest else hexColor0) in
           if length hexColor = 3 then
             (case getRGBFromHex
                     [hexColor ! 0, hexColor ! 0, hexColor ! 1, hexColor ! 1,
                      hexColor ! 2, hexColor ! 2] of
                Inl p \<Rightarrow> Inl p
              | Inr rgb \<Rightarrow> Inr (GetColorFromRGB rgb, None))
           else if length hexColor = 6 then
             (case getRGBFromHex hexColor of
                Inl p \<Rightarrow> Inl p
              | Inr rgb \<Rightarrow> Inr (GetColorFromRGB rgb, None))
           else if length hexColor = 8 then
             (case slice hexColor 0 6 of
                Inl p \<Rightarrow> Inl p
              | Inr s6 \<Rightarrow>
                  (case getRGBFromHex s6 of
                     Inl p \<Rightarrow> Inl p
                   | Inr rgb \<Rightarrow> Inr (GetColorFromRGB rgb, None)))
           else Inr (Unknown, Some (InvalidHexColorCode hexColor))))"

section \<open>The words of the specification\<close>

text \<open>
  A hex digit, as the specification has it: one of the ten decimal digits or of the
  letters a to f, in either case.
\<close>

definition isHexDigit :: "char \<Rightarrow> bool" where
  "isHexDigit ch \<longleftrightarrow> ch \<in> set ''0123456789abcdefABCDEF''"

definition hexDigitValue :: "char \<Rightarrow> nat" where
  "hexDigitValue ch =
     (if ch \<in> set ''0123456789'' then of_char ch - 48
      else if ch \<in> set ''abcdef'' then of_char ch - 87
      else of_char ch - 55)"

text \<open>The specification's decoding of a pair of hex digits as a base-16 byte.\<close>

definition decodeHexPair :: "char \<Rightarrow> char \<Rightarrow> 8 word" where
  "decodeHexPair hi lo = of_nat (16 * hexDigitValue hi + hexDigitValue lo)"

text \<open>The text left when one leading \<open>#\<close> is stripped.\<close>

definition stripHash :: "string \<Rightarrow> string" where
  "stripHash s = (case s of [] \<Rightarrow> [] | c # rest \<Rightarrow> if c = CHR ''#'' then rest else s)"

text \<open>Rules 1 to 3 of the classifier: the ones that look at no hue.\<close>

definition whiteOrBlackRule :: "HSLComponents \<Rightarrow> bool" where
  "whiteOrBlackRule hsl \<longleftrightarrow>
     (\<lfloor>Saturation hsl\<rfloor> \<le> 10 \<and> 90 \<le> \<lfloor>Lightness hsl\<rfloor>)
     \<or> \<lfloor>Lightness hsl\<rfloor> \<le> 13
     \<or> (\<lfloor>Saturation hsl\<rfloor> \<le> 10 \<and> \<lfloor>Lightness hsl\<rfloor> \<le> 70)
     \<or> \<lfloor>Saturation hsl\<rfloor> = 0"

section \<open>Parsing hex digits\<close>

lemma or_32_nat: "or (c::nat) 32 = (if bit c 5 then c else c + 32)"
  using set_bit_eq[of 5 c] by (simp add: set_bit_def)

lemma isHexDigit_code:
  assumes "(48 \<le> c \<and> c \<le> 57) \<or> (97 \<le> c \<and> c \<le> 102) \<or> (65 \<le> c \<and> c \<le> 70)"
    and "c = (of_char ch :: nat)"
  shows "isHexDigit ch"
proof -
  have ch: "ch = char_of c"
    using assms(2) by simp
  from assms(1) have "c \<in> {48, 49, 50, 51, 52, 53, 54, 55, 56, 57, 97, 98, 99, 100, 101, 102,
      65, 66, 67, 68, 69, 70}"
    by simp arith
  then show ?thesis
    unfolding ch isHexDigit_def by (elim insertE emptyE) (simp_all add: char_of_def bit_0)
qed

lemma digitValue_hex:
  "isHexDigit ch \<Longrightarrow> digitValue ch = Some (hexDigitValue ch) \<and> hexDigitValue ch < 16"
  unfolding isHexDigit_def
  by (elim disjE | simp add: digitValue_def lower_def hexDigitValue_def)+

lemma digitValue_not_hex:
  assumes "\<not> isHexDigit ch"
  shows "digitValue ch = None \<or> (\<exists>d. digitValue ch = Some d \<and> 16 \<le> d)"
proof -
  define c where "c = (of_char ch :: nat)"
  have range: "\<not> ((48 \<le> c \<and> c \<le> 57) \<or> (97 \<le> c \<and> c \<le> 102) \<or> (65 \<le> c \<and> c \<le> 70))"
    using assms isHexDigit_code[of c ch] by (auto simp: c_def)
  show ?thesis
  proof (cases "bit c 5")
    case True
    with range show ?thesis
      unfolding c_def by (simp add: digitValue_def Let_def lower_def or_32_nat) arith
  next
    case False
    with range show ?thesis
      unfolding c_def by (simp add: digitValue_def Let_def lower_def or_32_nat) arith
  qed
qed

lemma isHexDigit_not_hash: "isHexDigit ch \<Longrightarrow> ch \<noteq> CHR ''#''"
  by (auto simp: isHexDigit_def)

lemma ParseUint_pair:
  assumes "isHexDigit a" "isHexDigit b"
  shows "ParseUint [a, b] = Inr (16 * hexDigitValue a + hexDigitValue b)"
  using digitValue_hex[OF assms(1)] digitValue_hex[OF assms(2)]
  by (simp add: ParseUint_def)

lemma ParseUint_pair_bad:
  assumes "\<not> (isHexDigit a \<and> isHexDigit b)"
  shows "ParseUint [a, b] = Inl (ErrSyntax [a, b])"
proof (cases "isHexDigit a")
  case False
  then show ?thesis
    using digitValue_not_hex[of a] by (auto simp: ParseUint_def)
next
  case True
  then have "\<not> isHexDigit b"
    using assms by simp
  then show ?thesis
    using digitValue_hex[OF True] digitValue_not_hex[of b] by (auto simp: ParseUint_def)
qed

lemma getRGBFromHex_hex:
  assumes "isHexDigit a" "isHexDigit b" "isHexDigit c" "isHexDigit d" "isHexDigit e" "isHexDigit f"
  shows "getRGBFromHex [a, b, c, d, e, f] =
    Inr \<lparr>rgbRed = decodeHexPair a b, rgbGreen = decodeHexPair c d, rgbBlue = decodeHexPair e f\<rparr>"
  using assms by (simp add: getRGBFromHex_def slice_def ParseUint_pair decodeHexPair_def)

text \<open>
  A character that is no hex digit, anywhere among the six that \<^verbatim>\<open>getRGBFromHex\<close>
  reads, makes it panic with the error of \<^verbatim>\<open>ParseUint\<close>.
\<close>

lemma getRGBFromHex_not_hex:
  assumes "\<not> list_all isHexDigit [a, b, c, d, e, f]"
  shows "\<exists>t. getRGBFromHex [a, b, c, d, e, f] = Inl (PanicErr (ErrSyntax t))"
proof (cases "isHexDigit a \<and> isHexDigit b")
  case False
  then show ?thesis
    by (simp add: getRGBFromHex_def slice_def ParseUint_pair_bad)
next
  case ab: True
  show ?thesis
  proof (cases "isHexDigit c \<and> isHexDigit d")
    case False
    then show ?thesis
      using ab by (simp add: getRGBFromHex_def slice_def ParseUint_pair ParseUint_pair_bad)
  next
    case cd: True
    then have "\<not> (isHexDigit e \<and> isHexDigit f)"
      using assms ab by simp
    then show ?thesis
      using ab cd by (simp add: getRGBFromHex_def slice_def ParseUint_pair ParseUint_pair_bad)
  qed
qed

lemma length3E:
  assumes "length s = 3"
  obtains a b c where "s = [a, b, c]"
  using assms by (auto simp: length_Suc_conv eval_nat_numeral)

lemma length6E:
  assumes "length s = 6"
  obtains a b c d e f where "s = [a, b, c, d, e, f]"
  using assms by (auto simp: length_Suc_conv eval_nat_numeral)

lemma length8E:
  assumes "length s = 8"
  obtains a b c d e f g h where "s = [a, b, c, d, e, f, g, h]"
  using assms by (auto simp: length_Suc_conv eval_nat_numeral)

subsection \<open>\<^verbatim>\<open>GetColorFromHex\<close> by the length of its argument\<close>

lemma GetColorFromHex_three:
  "a \<noteq> CHR ''#'' \<Longrightarrow> GetColorFromHex [a, b, c] =
     (case getRGBFromHex [a, a, b, b, c, c] of Inl p \<Rightarrow> Inl p
      | Inr rgb \<Rightarrow> Inr (GetColorFromRGB rgb, None))"
  by (simp add: GetColorFromHex_def)

lemma GetColorFromHex_hash_three:
  "GetColorFromHex (CHR ''#'' # [a, b, c]) =
     (case getRGBFromHex [a, a, b, b, c, c] of Inl p \<Rightarrow> Inl p
      | Inr rgb \<Rightarrow> Inr (GetColorFromRGB rgb, None))"
  by (simp add: GetColorFromHex_def)

lemma GetColorFromHex_six:
  "a \<noteq> CHR ''#'' \<Longrightarrow> GetColorFromHex [a, b, c, d, e, f] =
     (case getRGBFromHex [a, b, c, d, e, f] of Inl p \<Rightarrow> Inl p
      | Inr rgb \<Rightarrow> Inr (GetColorFromRGB rgb, None))"
  by (simp add: GetColorFromHex_def)

lemma GetColorFromHex_hash_six:
  "GetColorFromHex (CHR ''#'' # [a, b, c, d, e, f]) =
     (case getRGBFromHex [a, b, c, d, e, f] of Inl p \<Rightarrow> Inl p
      | Inr rgb \<Rightarrow> Inr (GetColorFromRGB rgb, None))"
  by (simp add: GetColorFromHex_def)

lemma GetColorFromHex_eight:
  "a \<noteq> CHR ''#'' \<Longrightarrow> GetColorFromHex [a, b, c, d, e, f, g, h] =
     (case getRGBFromHex [a, b, c, d, e, f] of Inl p \<Rightarrow> Inl p
      | Inr rgb \<Rightarrow> Inr (GetColorFromRGB rgb, None))"
  by (simp add: GetColorFromHex_def slice_def)

lemma GetColorFromHex_hash_eight:
  "GetColorFromHex (CHR ''#'' # [a, b, c, d, e, f, g, h]) =
     (case getRGBFromHex [a, b, c, d, e, f] of Inl p \<Rightarrow> Inl p
      | Inr rgb \<Rightarrow> Inr (GetColorFromRGB rgb, None))"
  by (simp add: GetColorFromHex_def slice_def)

text \<open>
  Every text but the empty one whose length without the \<open>#\<close> is not 3, 6 or 8 gets
  the error value, which reports the text without the \<open>#\<close>.
\<close>

lemma GetColorFromHex_other_length:
  assumes "hexColor \<noteq> []" "length (stripHash hexColor) \<notin> {3, 6, 8}"
  shows "GetColorFromHex hexColor =
    Inr (Unknown, Some (InvalidHexColorCode (stripHash hexColor)))"
  using assms by (cases hexColor) (auto simp: GetColorFromHex_def stripHash_def)

text \<open>
  With a length of 3, 6 or 8 after the \<open>#\<close>, a character that is no hex digit among
  those that are read ends the call in the panic of \<^verbatim>\<open>getRGBFromHex\<close>.
\<close>

lemma GetColorFromHex_not_hex:
  assumes "length s = 3 \<or> length s = 6 \<or> length s = 8"
    and "\<not> list_all isHexDigit (take 6 s)"
  shows "\<exists>t. GetColorFromHex (CHR ''#'' # s) = Inl (PanicErr (ErrSyntax t))"
proof -
  consider (three) "length s = 3" | (six) "length s = 6" | (eight) "length s = 8"
    using assms(1) by blast
  then show ?thesis
  proof cases
    case three
    then obtain a b c where s: "s = [a, b, c]"
      by (rule length3E)
    then have "\<not> list_all isHexDigit [a, a, b, b, c, c]"
      using assms(2) by auto
    then obtain t where "getRGBFromHex [a, a, b, b, c, c] = Inl (PanicErr (ErrSyntax t))"
      using getRGBFromHex_not_hex by blast
    then show ?thesis
      unfolding s GetColorFromHex_hash_three by simp
  next
    case six
    then obtain a b c d e f where s: "s = [a, b, c, d, e, f]"
      by (rule length6E)
    then have "\<not> list_all isHexDigit [a, b, c, d, e, f]"
      using assms(2) by simp
    then obtain t where "getRGBFromHex [a, b, c, d, e, f] = Inl (PanicErr (ErrSyntax t))"
      using getRGBFromHex_not_hex by blast
    then show ?thesis
      unfolding s GetColorFromHex_hash_six by simp
  next
    case eight
    then obtain a b c d e f g h where s: "s = [a, b, c, d, e, f, g, h]"
      by (rule length8E)
    then have "\<not> list_all isHexDigit [a, b, c, d, e, f]"
      using assms(2) by simp
    then obtain t where "getRGBFromHex [a, b, c, d, e, f] = Inl (PanicErr (ErrSyntax t))"
      using getRGBFromHex_not_hex by blast
    then show ?thesis
      unfolding s GetColorFromHex_hash_eight by simp
  qed
qed

section \<open>The classifier on the floored components\<close>

lemma matchColorFromHSL_ints:
  assumes "\<lfloor>Lightness hsl\<rfloor> = l" and "\<lfloor>Saturation hsl\<rfloor> = s" and "\<lfloor>Hue hsl\<rfloor> = h"
  shows "matchColorFromHSL hsl =
     (if s \<le> 10 \<and> 90 \<le> l then White
      else if l \<le> 13 then Black
      else if (s \<le> 10 \<and> l \<le> 70) \<or> s = 0 then Black
      else if (0 \<le> h \<and> h \<le> 16) \<or> 346 \<le> h then Red
      else if 16 < h \<and> h \<le> 36 then Orange
      else if 36 < h \<and> h \<le> 64 then Yellow
      else if 64 < h \<and> h \<le> 165 then Green
      else if 165 < h \<and> h \<le> 208 then LightBlue
      else if 208 < h \<and> h \<le> 260 then Blue
      else if 260 < h \<and> h \<le> 345 then Purple
      else Unknown)"
  unfolding matchColorFromHSL_def Let_def assms by auto

lemma whiteOrBlackRule_ints:
  assumes "\<lfloor>Lightness hsl\<rfloor> = l" and "\<lfloor>Saturation hsl\<rfloor> = s"
  shows "whiteOrBlackRule hsl \<longleftrightarrow> (s \<le> 10 \<and> 90 \<le> l) \<or> l \<le> 13 \<or> (s \<le> 10 \<and> l \<le> 70) \<or> s = 0"
  unfolding whiteOrBlackRule_def assms by (rule refl)

lemma matchColorFromHSL_Unknown_iff:
  "matchColorFromHSL hsl = Unknown \<longleftrightarrow> \<not> whiteOrBlackRule hsl \<and> \<lfloor>Hue hsl\<rfloor> < 0"
  unfolding matchColorFromHSL_ints[OF refl refl refl] whiteOrBlackRule_ints[OF refl refl]
  by auto

section \<open>Rounding to float64\<close>

subsection \<open>Rounding to the nearest integer, ties to even\<close>

lemma round_half_even_of_int: "round_half_even (of_int n) = n"
  by (simp add: round_half_even_def)

lemma round_half_even_cases:
  "round_half_even q = \<lfloor>q\<rfloor> \<or> round_half_even q = \<lfloor>q\<rfloor> + 1"
  by (simp add: round_half_even_def Let_def)

lemma round_half_even_lower: "\<lfloor>q\<rfloor> \<le> round_half_even q"
  using round_half_even_cases[of q] by auto

lemma round_half_even_mono:
  assumes "q \<le> q'"
  shows "round_half_even q \<le> round_half_even q'"
proof (cases "\<lfloor>q\<rfloor> = \<lfloor>q'\<rfloor>")
  case True
  then show ?thesis
    using assms by (auto simp: round_half_even_def Let_def)
next
  case False
  then have "\<lfloor>q\<rfloor> < \<lfloor>q'\<rfloor>"
    using floor_mono[OF assms] by simp
  then have "\<lfloor>q\<rfloor> + 1 \<le> \<lfloor>q'\<rfloor>"
    by simp
  then show ?thesis
    using round_half_even_cases[of q] round_half_even_lower[of q'] by auto
qed

lemma round_half_even_uminus: "round_half_even (- q) = - round_half_even q"
proof (cases "q = of_int \<lfloor>q\<rfloor>")
  case True
  then obtain n where "q = of_int n" ..
  then show ?thesis
    using round_half_even_of_int[of n] round_half_even_of_int[of "- n"] by simp
next
  case False
  define n where "n = \<lfloor>q\<rfloor>"
  define d where "d = q - of_int n"
  have "of_int n \<le> q" "q < of_int n + 1"
    unfolding n_def by linarith+
  moreover have "q \<noteq> of_int n"
    using False by (simp add: n_def)
  ultimately have d: "0 < d" "d < 1"
    unfolding d_def by linarith+
  have fl: "\<lfloor>- q\<rfloor> = - n - 1"
    by (rule floor_unique) (use d in \<open>simp_all add: d_def\<close>)
  have frac: "- q - of_int (- n - 1) = 1 - d"
    by (simp add: d_def)
  have pos: "round_half_even q =
      (if d < 1 / 2 then n else if 1 / 2 < d then n + 1 else if even n then n else n + 1)"
    unfolding round_half_even_def Let_def n_def[symmetric] d_def[symmetric] ..
  have neg: "round_half_even (- q) =
      (if 1 - d < 1 / 2 then - n - 1 else if 1 / 2 < 1 - d then - n - 1 + 1
       else if even (- n - 1) then - n - 1 else - n - 1 + 1)"
    unfolding round_half_even_def Let_def fl frac ..
  have e: "even (- n - 1) \<longleftrightarrow> odd n"
    by simp
  consider "d < 1 / 2" | "1 / 2 < d" | "d = 1 / 2"
    by linarith
  then show ?thesis
  proof cases
    case 1
    then show ?thesis unfolding pos neg by simp
  next
    case 2
    then show ?thesis unfolding pos neg by simp
  next
    case 3
    then show ?thesis unfolding pos neg e by simp
  qed
qed

lemma round_half_even_error: "\<bar>of_int (round_half_even q) - q\<bar> \<le> 1 / 2"
proof -
  define n where "n = \<lfloor>q\<rfloor>"
  define d where "d = q - of_int n"
  have "of_int n \<le> q" "q < of_int n + 1"
    unfolding n_def by linarith+
  then have d: "0 \<le> d" "d < 1"
    unfolding d_def by linarith+
  have q: "q = of_int n + d"
    by (simp add: d_def)
  have "round_half_even q =
      (if d < 1 / 2 then n else if 1 / 2 < d then n + 1 else if even n then n else n + 1)"
    unfolding round_half_even_def Let_def n_def[symmetric] d_def[symmetric] ..
  then have "of_int (round_half_even q) - q = - d \<and> d \<le> 1 / 2
      \<or> of_int (round_half_even q) - q = 1 - d \<and> 1 / 2 \<le> d"
    unfolding q by (auto split: if_splits)
  then show ?thesis
    using d by (auto simp: abs_if)
qed

lemma round_half_even_ge: "of_int n \<le> q \<Longrightarrow> n \<le> round_half_even q"
  using round_half_even_mono[of "of_int n" q] by (simp add: round_half_even_of_int)

lemma round_half_even_le: "q \<le> of_int n \<Longrightarrow> round_half_even q \<le> n"
  using round_half_even_mono[of q "of_int n"] by (simp add: round_half_even_of_int)

subsection \<open>Exponent and unit in the last place\<close>

lemma ulp64_pos: "0 < ulp64 x"
  by (simp add: ulp64_def)

lemma exponent64_uminus: "exponent64 (- x) = exponent64 x"
  by (simp add: exponent64_def)

lemma ulp64_uminus: "ulp64 (- x) = ulp64 x"
  by (simp add: ulp64_def exponent64_uminus)

lemma round64_zero: "round64 0 = 0"
  by (simp add: round64_def)

lemma round64_uminus: "round64 (- x) = - round64 x"
  by (simp add: round64_def ulp64_uminus round_half_even_uminus)

lemma round64_nonneg:
  assumes "0 \<le> x"
  shows "0 \<le> round64 x"
proof -
  have "0 \<le> x / ulp64 x"
    using assms ulp64_pos[of x] by simp
  then have "0 \<le> round_half_even (x / ulp64 x)"
    using round_half_even_ge[of 0] by simp
  then show ?thesis
    using ulp64_pos[of x] by (simp add: round64_def)
qed

lemma floor_log2_bounds:
  assumes "0 < a"
  shows "2 powr of_int \<lfloor>log 2 a\<rfloor> \<le> a" and "a < 2 powr of_int (\<lfloor>log 2 a\<rfloor> + 1)"
  using floor_log_eq_powr_iff[of a 2 "\<lfloor>log 2 a\<rfloor>"] assms by simp_all

lemma abs_less_exponent64:
  assumes "x \<noteq> 0"
  shows "\<bar>x\<bar> < 2 powr of_int (exponent64 x + 1)"
proof -
  have "\<bar>x\<bar> < 2 powr of_int (\<lfloor>log 2 \<bar>x\<bar>\<rfloor> + 1)"
    using floor_log2_bounds(2)[of "\<bar>x\<bar>"] assms by simp
  also have "\<dots> \<le> 2 powr of_int (exponent64 x + 1)"
    by (rule powr_mono) (simp_all add: exponent64_def)
  finally show ?thesis .
qed

lemma exponent64_normal:
  assumes "2 powr (- 1022) \<le> \<bar>x\<bar>"
  shows "exponent64 x = \<lfloor>log 2 \<bar>x\<bar>\<rfloor>"
proof -
  have pos: "0 < \<bar>x\<bar>"
    using assms by (smt (verit) powr_gt_zero)
  have "- 1022 \<le> log 2 \<bar>x\<bar>"
    using assms pos by (simp add: le_log_iff)
  then have "- 1022 \<le> \<lfloor>log 2 \<bar>x\<bar>\<rfloor>"
    by (simp add: le_floor_iff)
  then show ?thesis
    by (simp add: exponent64_def)
qed

lemma exponent64_le_abs:
  assumes "x \<noteq> 0" and "exponent64 x = \<lfloor>log 2 \<bar>x\<bar>\<rfloor>"
  shows "2 powr of_int (exponent64 x) \<le> \<bar>x\<bar>"
  using floor_log2_bounds(1)[of "\<bar>x\<bar>"] assms by simp

lemma exponent64_mono:
  assumes "0 < x" and "x \<le> y"
  shows "exponent64 x \<le> exponent64 y"
proof -
  have "log 2 \<bar>x\<bar> \<le> log 2 \<bar>y\<bar>"
    using assms by simp
  then have "\<lfloor>log 2 \<bar>x\<bar>\<rfloor> \<le> \<lfloor>log 2 \<bar>y\<bar>\<rfloor>"
    by (rule floor_mono)
  then show ?thesis
    by (simp add: exponent64_def)
qed

lemma ulp64_times: "2 ^ 52 * ulp64 x = 2 powr of_int (exponent64 x)"
proof -
  have "ulp64 x = 2 powr of_int (exponent64 x) / 2 powr 52"
    by (simp add: ulp64_def powr_diff)
  moreover have "(2::real) powr 52 = 2 ^ 52"
    by simp
  ultimately show ?thesis
    by simp
qed

lemma round64_le_next_power:
  assumes "0 < x"
  shows "round64 x \<le> 2 powr of_int (exponent64 x + 1)"
proof -
  have "x < 2 powr of_int (exponent64 x + 1)"
    using abs_less_exponent64[of x] assms by simp
  also have "\<dots> = 2 ^ 53 * ulp64 x"
    using ulp64_times[of x] by (simp add: powr_add)
  finally have "x / ulp64 x \<le> of_int (2 ^ 53)"
    using ulp64_pos[of x] by (simp add: pos_divide_le_eq)
  then have "round_half_even (x / ulp64 x) \<le> 2 ^ 53"
    by (rule round_half_even_le)
  then have "of_int (round_half_even (x / ulp64 x)) \<le> (2 ^ 53 :: real)"
    by (metis of_int_le_iff of_int_numeral of_int_power)
  then have "round64 x \<le> 2 ^ 53 * ulp64 x"
    using assms ulp64_pos[of x] by (simp add: round64_def)
  also have "\<dots> = 2 powr of_int (exponent64 x + 1)"
    using ulp64_times[of x] by (simp add: powr_add)
  finally show ?thesis .
qed

lemma power_le_round64:
  assumes "0 < x" and "2 powr of_int (exponent64 x) \<le> x"
  shows "2 powr of_int (exponent64 x) \<le> round64 x"
proof -
  have "2 ^ 52 * ulp64 x \<le> x"
    using assms(2) ulp64_times[of x] by simp
  then have "of_int (2 ^ 52) \<le> x / ulp64 x"
    using ulp64_pos[of x] by (simp add: pos_le_divide_eq)
  then have "2 ^ 52 \<le> round_half_even (x / ulp64 x)"
    by (rule round_half_even_ge)
  then have "(2 ^ 52 :: real) \<le> of_int (round_half_even (x / ulp64 x))"
    by (metis of_int_le_iff of_int_numeral of_int_power)
  then have "2 ^ 52 * ulp64 x \<le> round64 x"
    using assms(1) ulp64_pos[of x] by (simp add: round64_def)
  then show ?thesis
    using ulp64_times[of x] by simp
qed

subsection \<open>\<open>round64\<close> is monotone, fixes the representable numbers, and is close\<close>

lemma round64_mono_pos:
  assumes "0 < x" and "x \<le> y"
  shows "round64 x \<le> round64 y"
proof (cases "exponent64 x = exponent64 y")
  case True
  then have u: "ulp64 x = ulp64 y"
    by (simp add: ulp64_def)
  have "x / ulp64 y \<le> y / ulp64 y"
    using assms(2) ulp64_pos[of y] by (simp add: divide_right_mono)
  then have "round_half_even (x / ulp64 y) \<le> round_half_even (y / ulp64 y)"
    by (rule round_half_even_mono)
  then have "of_int (round_half_even (x / ulp64 y)) * ulp64 y
      \<le> of_int (round_half_even (y / ulp64 y)) * ulp64 y"
    using ulp64_pos[of y] by simp
  then show ?thesis
    using assms by (simp add: round64_def u)
next
  case False
  have y: "0 < y"
    using assms by simp
  have lt: "exponent64 x < exponent64 y"
    using False exponent64_mono[OF assms] by simp
  then have "- 1022 < exponent64 y"
    by (simp add: exponent64_def)
  then have "exponent64 y = \<lfloor>log 2 \<bar>y\<bar>\<rfloor>"
    by (simp add: exponent64_def)
  then have "2 powr of_int (exponent64 y) \<le> y"
    using exponent64_le_abs[of y] y by simp
  then have hi: "2 powr of_int (exponent64 y) \<le> round64 y"
    by (rule power_le_round64[OF y])
  have "round64 x \<le> 2 powr of_int (exponent64 x + 1)"
    by (rule round64_le_next_power[OF assms(1)])
  also have "\<dots> \<le> 2 powr of_int (exponent64 y)"
    by (rule powr_mono) (use lt in simp_all)
  finally show ?thesis
    using hi by simp
qed

lemma round64_mono:
  assumes "x \<le> y"
  shows "round64 x \<le> round64 y"
proof -
  consider "0 < x" | "x \<le> 0" "0 \<le> y" | "y < 0"
    by linarith
  then show ?thesis
  proof cases
    case 1
    then show ?thesis
      using assms by (rule round64_mono_pos)
  next
    case 2
    then have "round64 x \<le> 0" "0 \<le> round64 y"
      using round64_nonneg[of "- x"] round64_nonneg[of y] by (simp_all add: round64_uminus)
    then show ?thesis by simp
  next
    case 3
    then have "round64 (- y) \<le> round64 (- x)"
      using assms by (intro round64_mono_pos) simp_all
    then show ?thesis
      by (simp add: round64_uminus)
  qed
qed

lemma round64_representable:
  assumes "\<bar>m\<bar> < 2 ^ 53" and "- 1074 \<le> k"
  shows "round64 (of_int m * 2 powr of_int k) = of_int m * 2 powr of_int k"
proof (cases "m = 0")
  case True
  then show ?thesis
    by (simp add: round64_zero)
next
  case False
  define x :: real where "x = of_int m * 2 powr of_int k"
  have x0: "x \<noteq> 0"
    using False by (simp add: x_def)
  have "\<bar>x\<bar> = of_int \<bar>m\<bar> * 2 powr of_int k"
    by (simp add: x_def abs_mult)
  also have "\<dots> < 2 ^ 53 * 2 powr of_int k"
  proof -
    have "(of_int \<bar>m\<bar> :: real) < of_int (2 ^ 53)"
      using assms(1) by (simp only: of_int_less_iff)
    then show ?thesis
      by simp
  qed
  also have "\<dots> = 2 powr of_int (53 + k)"
    by (simp add: powr_add)
  finally have "\<bar>x\<bar> < 2 powr of_int (53 + k)" .
  then have "log 2 \<bar>x\<bar> < of_int (53 + k)"
    using x0 by (simp add: log_less_iff)
  then have "\<lfloor>log 2 \<bar>x\<bar>\<rfloor> < 53 + k"
    by (simp only: floor_less_iff)
  then have e: "exponent64 x \<le> 52 + k"
    using assms(2) by (simp add: exponent64_def)
  define j where "j = nat (52 + k - exponent64 x)"
  have "(2::real) powr of_int k = 2 powr of_int (int j) * 2 powr of_int (exponent64 x - 52)"
    using e by (simp add: j_def flip: powr_add)
  then have "(2::real) powr of_int k = 2 ^ j * ulp64 x"
    by (simp add: ulp64_def powr_realpow)
  then have "of_int m * 2 powr of_int k = of_int (m * 2 ^ j) * ulp64 x"
    by simp
  then have eq: "x = of_int (m * 2 ^ j) * ulp64 x"
    by (rule trans[OF x_def])
  have "x / ulp64 x = of_int (m * 2 ^ j) * ulp64 x / ulp64 x"
    by (rule arg_cong[where f = "\<lambda>t. t / ulp64 x", OF eq])
  also have "\<dots> = of_int (m * 2 ^ j)"
    using ulp64_pos[of x] by simp
  finally have "round_half_even (x / ulp64 x) = m * 2 ^ j"
    by (simp only: round_half_even_of_int)
  then have "round64 x = of_int (m * 2 ^ j) * ulp64 x"
    using x0 by (simp add: round64_def)
  then have "round64 x = x"
    using eq by (rule trans[OF _ sym])
  then show ?thesis
    by (simp only: x_def)
qed

lemma round64_of_int:
  assumes "\<bar>m\<bar> < 2 ^ 53"
  shows "round64 (of_int m) = of_int m"
  using round64_representable[OF assms, of 0] by simp

lemma round64_dyadic:
  assumes "\<bar>m\<bar> < 2 ^ 53" and "j \<le> 1074"
  shows "round64 (of_int m / 2 ^ j) = of_int m / 2 ^ j"
proof -
  have "(2::real) powr of_int (- int j) = 1 / 2 ^ j"
    by (simp add: powr_minus powr_realpow inverse_eq_divide)
  then show ?thesis
    using round64_representable[OF assms(1), of "- int j"] assms(2) by simp
qed

lemma round64_error:
  assumes "2 powr (- 1022) \<le> \<bar>x\<bar>"
  shows "\<bar>round64 x - x\<bar> \<le> \<bar>x\<bar> / 2 ^ 53"
proof -
  have x0: "x \<noteq> 0"
    using assms by (smt (verit) powr_gt_zero)
  have "2 ^ 52 * ulp64 x \<le> \<bar>x\<bar>"
    using exponent64_le_abs[OF x0 exponent64_normal[OF assms]] ulp64_times[of x] by simp
  then have u: "ulp64 x / 2 \<le> \<bar>x\<bar> / 2 ^ 53"
    by simp
  have "round64 x - x = (of_int (round_half_even (x / ulp64 x)) - x / ulp64 x) * ulp64 x"
    using x0 ulp64_pos[of x] by (simp add: round64_def field_simps)
  then have "\<bar>round64 x - x\<bar> = \<bar>of_int (round_half_even (x / ulp64 x)) - x / ulp64 x\<bar> * ulp64 x"
    using ulp64_pos[of x] by (simp add: abs_mult)
  also have "\<dots> \<le> 1 / 2 * ulp64 x"
    using round_half_even_error[of "x / ulp64 x"] ulp64_pos[of x]
    by (intro mult_right_mono) simp_all
  finally show ?thesis
    using u by simp
qed

subsection \<open>A check of the rounding: the float64 nearest to \<open>1 / 255\<close>\<close>

text \<open>
  The float64 that \<^verbatim>\<open>1.0 / 255\<close> evaluates to has the bits \<^verbatim>\<open>0x3F70101010101010\<close>: the
  exponent is \<open>- 8\<close> and the significand, with its leading bit, is
  \<^verbatim>\<open>0x10101010101010\<close>, that is 4521260802379792.
\<close>

lemma exponent64_eqI:
  assumes "2 powr of_int e \<le> \<bar>x\<bar>" and "\<bar>x\<bar> < 2 powr of_int (e + 1)" and "- 1022 \<le> e"
  shows "exponent64 x = e"
proof -
  have "0 < \<bar>x\<bar>"
    using assms(1) by (smt (verit) powr_gt_zero)
  then have "\<lfloor>log 2 \<bar>x\<bar>\<rfloor> = e"
    using assms(1,2) by (simp add: floor_log_eq_powr_iff)
  then show ?thesis
    using assms(3) by (simp add: exponent64_def)
qed

lemma exponent64_one_255th: "exponent64 (1 / 255) = - 8"
  by (rule exponent64_eqI) (simp_all add: powr_minus_divide)

lemma round64_one_255th: "round64 (1 / 255) = 4521260802379792 / 2 ^ 60"
proof -
  have u: "ulp64 (1 / 255) = 1 / 2 ^ 60"
    by (simp add: ulp64_def exponent64_one_255th powr_minus_divide)
  have "round_half_even (1 / 255 / (1 / 2 ^ 60)) = 4521260802379792"
    by (simp add: round_half_even_def Let_def)
  then show ?thesis
    by (simp add: round64_def u)
qed

section \<open>The conversion from RGB to HSL\<close>

text \<open>
  The normalised channels \<^verbatim>\<open>float64(n) / 255\<close> lie between 0 and 1, keep the order of
  the bytes, and two different ones are at least \<open>1 / 256\<close> apart.
\<close>

lemma round64_values:
  "round64 1 = 1" "round64 (- 1) = - 1" "round64 2 = 2" "round64 3 = 3" "round64 4 = 4"
  "round64 5 = 5" "round64 6 = 6" "round64 50 = 50" "round64 60 = 60" "round64 100 = 100"
  "round64 180 = 180" "round64 300 = 300"
  using round64_of_int[of 1] round64_of_int[of "- 1"] round64_of_int[of 2] round64_of_int[of 3]
    round64_of_int[of 4] round64_of_int[of 5] round64_of_int[of 6] round64_of_int[of 50]
    round64_of_int[of 60] round64_of_int[of 100] round64_of_int[of 180] round64_of_int[of 300]
  by simp_all

lemma round64_fractions:
  "round64 (- (1 / 256)) = - (1 / 256)" "round64 (1535 / 256) = 1535 / 256"
  "round64 (23025 / 64) = 23025 / 64"
  using round64_dyadic[of "- 1" 8] round64_dyadic[of 1535 8] round64_dyadic[of 23025 6]
  by simp_all

lemma channel_bounds:
  assumes "n \<le> 255"
  shows "0 \<le> fdiv (real n) 255" and "fdiv (real n) 255 \<le> 1"
proof -
  show "0 \<le> fdiv (real n) 255"
    unfolding fdiv_def by (rule round64_nonneg) simp
  have "real n / 255 \<le> 1"
    using assms by simp
  then have "round64 (real n / 255) \<le> round64 1"
    by (rule round64_mono)
  then show "fdiv (real n) 255 \<le> 1"
    by (simp add: fdiv_def round64_values)
qed

lemma channel_mono:
  assumes "n \<le> n'"
  shows "fdiv (real n) 255 \<le> fdiv (real n') 255"
  unfolding fdiv_def using assms by (intro round64_mono) (simp add: divide_right_mono)

lemma channel_error:
  assumes "n \<le> 255"
  shows "\<bar>fdiv (real n) 255 - real n / 255\<bar> \<le> 1 / 2 ^ 53"
proof (cases "n = 0")
  case True
  then show ?thesis
    by (simp add: fdiv_def round64_zero)
next
  case False
  have "(2::real) powr (- 1022) \<le> 2 powr (- 8)"
    by (rule powr_mono) simp_all
  also have "\<dots> = 1 / 256"
    by (simp add: powr_minus_divide)
  also have "\<dots> \<le> real n / 255"
    using False by simp
  finally have "2 powr (- 1022) \<le> \<bar>real n / 255\<bar>"
    by simp
  then have "\<bar>round64 (real n / 255) - real n / 255\<bar> \<le> \<bar>real n / 255\<bar> / 2 ^ 53"
    by (rule round64_error)
  also have "\<dots> \<le> 1 / 2 ^ 53"
    using assms by (simp add: divide_right_mono)
  finally show ?thesis
    by (simp add: fdiv_def)
qed

lemma channel_separated:
  assumes "n < n'" and "n' \<le> 255"
  shows "fdiv (real n) 255 + 1 / 256 \<le> fdiv (real n') 255"
proof -
  have "real n + 1 \<le> real n'"
    using assms(1) by simp
  then have "real n / 255 + 1 / 255 \<le> real n' / 255"
    by (simp add: field_simps)
  moreover have "\<bar>fdiv (real n) 255 - real n / 255\<bar> \<le> 1 / 2 ^ 53"
    using assms by (intro channel_error) simp
  moreover have "\<bar>fdiv (real n') 255 - real n' / 255\<bar> \<le> 1 / 2 ^ 53"
    using assms by (intro channel_error) simp
  moreover have "(2::real) ^ 53 = 9007199254740992"
    by simp
  ultimately show ?thesis
    by (simp only:)
qed

lemma channel_less_separated:
  assumes "fdiv (real n) 255 < fdiv (real n') 255" and "n' \<le> 255"
  shows "fdiv (real n) 255 + 1 / 256 \<le> fdiv (real n') 255"
proof -
  have "n < n'"
    using assms(1) channel_mono[of n' n] by (cases "n < n'") simp_all
  then show ?thesis
    using assms(2) by (rule channel_separated)
qed

lemma segment_bounds:
  assumes "mn \<le> x" "x \<le> mx" "mn \<le> y" "y \<le> mx" and "fsub mx mn \<noteq> 0"
  shows "- 1 \<le> fdiv (fsub x y) (fsub mx mn)" and "fdiv (fsub x y) (fsub mx mn) \<le> 1"
proof -
  define c where "c = fsub mx mn"
  have "0 \<le> c"
    unfolding c_def fsub_def using assms by (intro round64_nonneg) simp
  then have c: "0 < c"
    using assms(5) by (simp add: c_def)
  have "round64 (x - y) \<le> round64 (mx - mn)"
    using assms by (intro round64_mono) simp
  then have up: "fsub x y \<le> c"
    by (simp add: fsub_def c_def)
  have "round64 (- (mx - mn)) \<le> round64 (x - y)"
    using assms by (intro round64_mono) simp
  then have lo: "- c \<le> fsub x y"
    by (simp only: fsub_def c_def round64_uminus)
  have "- 1 \<le> fsub x y / c"
    using lo c by (simp add: pos_le_divide_eq)
  then have "round64 (- 1) \<le> round64 (fsub x y / c)"
    by (rule round64_mono)
  then show "- 1 \<le> fdiv (fsub x y) (fsub mx mn)"
    by (simp add: fdiv_def c_def round64_values)
  have "fsub x y / c \<le> 1"
    using up c by (simp add: pos_divide_le_eq)
  then have "round64 (fsub x y / c) \<le> round64 1"
    by (rule round64_mono)
  then show "fdiv (fsub x y) (fsub mx mn) \<le> 1"
    by (simp add: fdiv_def c_def round64_values)
qed

lemma segment_negative:
  assumes "fdiv (fsub x y) c < 0" and "0 < c" and "c \<le> 1"
    and sep: "x < y \<Longrightarrow> x + 1 / 256 \<le> y"
  shows "fdiv (fsub x y) c \<le> - (1 / 256)"
proof -
  have "x < y"
  proof (rule ccontr)
    assume "\<not> x < y"
    then have "0 \<le> fsub x y"
      unfolding fsub_def by (intro round64_nonneg) simp
    then have "0 \<le> fdiv (fsub x y) c"
      unfolding fdiv_def using assms(2) by (intro round64_nonneg) simp
    with assms(1) show False
      by simp
  qed
  then have "x - y \<le> - (1 / 256)"
    using sep by simp
  then have "round64 (x - y) \<le> round64 (- (1 / 256))"
    by (rule round64_mono)
  then have neg: "fsub x y \<le> - (1 / 256)"
    by (simp add: fsub_def round64_fractions)
  then have "fsub x y \<le> c * fsub x y"
    using assms(2,3) by (simp add: mult_le_cancel_right2)
  then have "fsub x y / c \<le> fsub x y"
    using assms(2) by (simp add: pos_divide_le_eq mult.commute)
  then have "fsub x y / c \<le> - (1 / 256)"
    using neg by simp
  then have "round64 (fsub x y / c) \<le> round64 (- (1 / 256))"
    by (rule round64_mono)
  then show ?thesis
    by (simp add: fdiv_def round64_fractions)
qed

text \<open>
  The hue before the scaling lies between 0 and \<open>6 - 1 / 256\<close>, so the hue lies
  between 0 and \<open>360 - 15 / 64\<close>.
\<close>

lemma getHSLFromRGB_Hue_bounds:
  shows "0 \<le> Hue (getHSLFromRGB rgb)" and "Hue (getHSLFromRGB rgb) \<le> 23025 / 64"
proof -
  define nr where "nr = unat (rgbRed rgb)"
  define ng where "ng = unat (rgbGreen rgb)"
  define nb where "nb = unat (rgbBlue rgb)"
  have n: "nr \<le> 255" "ng \<le> 255" "nb \<le> 255"
    using unsigned_less[of "rgbRed rgb", where ?'a = nat]
      unsigned_less[of "rgbGreen rgb", where ?'a = nat]
      unsigned_less[of "rgbBlue rgb", where ?'a = nat]
    by (simp_all add: nr_def ng_def nb_def)
  define r where "r = fdiv (real nr) 255"
  define g where "g = fdiv (real ng) 255"
  define b where "b = fdiv (real nb) 255"
  define mx where "mx = max (max r g) b"
  define mn where "mn = min (min r g) b"
  define c where "c = fsub mx mn"
  define h0 where "h0 =
     (if c = 0 then 0
      else if mx = r then
        (let segment = fdiv (fsub g b) c;
             shift = (if segment < 0 then 6 else 0)
         in fadd segment shift)
      else if mx = g then
        (let segment = fdiv (fsub b r) c; shift = 2 in fadd segment shift)
      else if mx = b then
        (let segment = fdiv (fsub r g) c; shift = 4 in fadd segment shift)
      else 0)"
  have H: "Hue (getHSLFromRGB rgb) = fmul h0 60"
    unfolding getHSLFromRGB_def h0_def c_def mn_def mx_def r_def g_def b_def nr_def ng_def nb_def
      Let_def
    by simp
  have unit: "0 \<le> r" "r \<le> 1" "0 \<le> g" "g \<le> 1" "0 \<le> b" "b \<le> 1"
    using channel_bounds n by (simp_all add: r_def g_def b_def)
  have order: "mn \<le> r" "r \<le> mx" "mn \<le> g" "g \<le> mx" "mn \<le> b" "b \<le> mx"
    by (simp_all add: mx_def mn_def)
  have sep_gb: "g < b \<Longrightarrow> g + 1 / 256 \<le> b"
    unfolding g_def b_def using channel_less_separated[OF _ n(3)] by simp
  have "mx - mn \<le> 1" "0 \<le> mx - mn"
    using unit by (auto simp: mx_def mn_def)
  then have "round64 (mx - mn) \<le> round64 1" "0 \<le> round64 (mx - mn)"
    by (simp_all add: round64_mono round64_nonneg)
  then have c01: "0 \<le> c" "c \<le> 1"
    by (simp_all add: c_def fsub_def round64_values)
  have key: "0 \<le> h0 \<and> h0 \<le> 1535 / 256"
  proof (cases "c = 0")
    case True
    then show ?thesis
      by (simp add: h0_def)
  next
    case c0: False
    then have cpos: "0 < c"
      using c01 by simp
    have c0': "fsub mx mn \<noteq> 0"
      using c0 by (simp add: c_def)
    consider (red) "mx = r" | (green) "mx \<noteq> r" "mx = g" | (blue) "mx \<noteq> r" "mx \<noteq> g" "mx = b"
      | (none) "mx \<noteq> r" "mx \<noteq> g" "mx \<noteq> b"
      by blast
    then show ?thesis
    proof cases
      case red
      define seg where "seg = fdiv (fsub g b) c"
      have seg: "- 1 \<le> seg" "seg \<le> 1"
        using segment_bounds[OF order(3,4,5,6) c0'] by (simp_all add: seg_def c_def)
      have h0: "h0 = fadd seg (if seg < 0 then 6 else 0)"
        using c0 red by (simp add: h0_def seg_def Let_def)
      show ?thesis
      proof (cases "seg < 0")
        case True
        then have "seg \<le> - (1 / 256)"
          unfolding seg_def using cpos c01(2) sep_gb by (rule segment_negative)
        then have "round64 (seg + 6) \<le> round64 (1535 / 256)"
          by (intro round64_mono) simp
        moreover have "round64 5 \<le> round64 (seg + 6)"
          using seg by (intro round64_mono) simp
        ultimately show ?thesis
          using True by (simp add: h0 fadd_def round64_values round64_fractions)
      next
        case False
        then have "round64 0 \<le> round64 (seg + 0)" "round64 (seg + 0) \<le> round64 1"
          using seg by (simp_all add: round64_mono)
        then show ?thesis
          using False by (simp add: h0 fadd_def round64_values round64_zero)
      qed
    next
      case green
      define seg where "seg = fdiv (fsub b r) c"
      have seg: "- 1 \<le> seg" "seg \<le> 1"
        using segment_bounds[OF order(5,6,1,2) c0'] by (simp_all add: seg_def c_def)
      have h0: "h0 = fadd seg 2"
        using c0 green by (simp add: h0_def seg_def Let_def)
      have "round64 1 \<le> round64 (seg + 2)" "round64 (seg + 2) \<le> round64 3"
        using seg by (simp_all add: round64_mono)
      then show ?thesis
        by (simp add: h0 fadd_def round64_values)
    next
      case blue
      define seg where "seg = fdiv (fsub r g) c"
      have seg: "- 1 \<le> seg" "seg \<le> 1"
        using segment_bounds[OF order(1,2,3,4) c0'] by (simp_all add: seg_def c_def)
      have h0: "h0 = fadd seg 4"
        using c0 blue by (simp add: h0_def seg_def Let_def)
      have "round64 3 \<le> round64 (seg + 4)" "round64 (seg + 4) \<le> round64 5"
        using seg by (simp_all add: round64_mono)
      then show ?thesis
        by (simp add: h0 fadd_def round64_values)
    next
      case none
      then show ?thesis
        using c0 by (simp add: h0_def)
    qed
  qed
  from key have "0 \<le> h0 * 60"
    by simp
  then show "0 \<le> Hue (getHSLFromRGB rgb)"
    unfolding H fmul_def by (rule round64_nonneg)
  from key have "h0 * 60 \<le> 23025 / 64"
    by simp
  then have "round64 (h0 * 60) \<le> round64 (23025 / 64)"
    by (rule round64_mono)
  then show "Hue (getHSLFromRGB rgb) \<le> 23025 / 64"
    by (simp add: H fmul_def round64_fractions)
qed


text \<open>The three anchors, computed with the rounding of every operation.\<close>

lemma getHSLFromRGB_black:
  "getHSLFromRGB \<lparr>rgbRed = 0, rgbGreen = 0, rgbBlue = 0\<rparr> =
     \<lparr>Hue = 0, Saturation = 0, Lightness = 0\<rparr>"
  by (simp add: getHSLFromRGB_def fdiv_def fsub_def fadd_def fmul_def round64_zero)

lemma getHSLFromRGB_white:
  "getHSLFromRGB \<lparr>rgbRed = 255, rgbGreen = 255, rgbBlue = 255\<rparr> =
     \<lparr>Hue = 0, Saturation = 0, Lightness = 100\<rparr>"
  by (simp add: getHSLFromRGB_def fdiv_def fsub_def fadd_def fmul_def round64_zero
      round64_values)

lemma getHSLFromRGB_red:
  "getHSLFromRGB \<lparr>rgbRed = 255, rgbGreen = 0, rgbBlue = 0\<rparr> =
     \<lparr>Hue = 0, Saturation = 100, Lightness = 50\<rparr>"
  by (simp add: getHSLFromRGB_def fdiv_def fsub_def fadd_def fmul_def round64_zero
      round64_values)


section \<open>The claims\<close>

text \<open>
  C1. The claim: a character that is no hex digit, among the digits that are read,
  makes \<^verbatim>\<open>GetColorFromHex\<close> return an error value, and the process goes on. In the source
  \<^verbatim>\<open>getRGBFromHex\<close> calls \<^verbatim>\<open>panic(err)\<close> instead: at \<^verbatim>\<open>"#gg0000"\<close>, at the shorthand
  \<^verbatim>\<open>"#0g0"\<close> and at the eight characters \<^verbatim>\<open>"0000zzff"\<close> the call ends in a panic that
  carries the syntax error of \<^verbatim>\<open>ParseUint\<close> (and so it does at every such character:
  \<open>GetColorFromHex_not_hex\<close>).
\<close>

theorem GetColorFromHex_bad_digit_panics:
  "GetColorFromHex ''#gg0000'' = Inl (PanicErr (ErrSyntax ''gg''))
   \<and> GetColorFromHex ''#0g0'' = Inl (PanicErr (ErrSyntax ''gg''))
   \<and> GetColorFromHex ''0000zzff'' = Inl (PanicErr (ErrSyntax ''zz''))"
  by (simp add: GetColorFromHex_def getRGBFromHex_def slice_def ParseUint_def digitValue_def
      lower_def)

text \<open>
  C2. The claim: every text whose length without one leading \<open>#\<close> is not 3, 6 or 8,
  the empty text too, gets the error value and no crash. The source reads
  \<^verbatim>\<open>hexColor[0]\<close> first, so the empty text ends in a run-time panic (every other such
  text gets the error value: \<open>GetColorFromHex_other_length\<close>).
\<close>

theorem GetColorFromHex_empty_panics: "GetColorFromHex [] = Inl IndexOutOfRange"
  by (simp add: GetColorFromHex_def)

text \<open>
  C3. \<^verbatim>\<open>GetColorFromRGB\<close> returns \<open>Unknown\<close> for no triple of bytes: the hue of
  \<^verbatim>\<open>getHSLFromRGB\<close> is at least 0 and below 360, so its floor is taken by one of the
  rules before the default.
\<close>

theorem GetColorFromRGB_never_Unknown:
  "GetColorFromRGB rgb \<noteq> Unknown
   \<and> 0 \<le> Hue (getHSLFromRGB rgb) \<and> Hue (getHSLFromRGB rgb) < 360"
proof -
  have lo: "0 \<le> Hue (getHSLFromRGB rgb)"
    by (rule getHSLFromRGB_Hue_bounds)
  then have "0 \<le> \<lfloor>Hue (getHSLFromRGB rgb)\<rfloor>"
    by simp
  then have "GetColorFromRGB rgb \<noteq> Unknown"
    by (simp add: GetColorFromRGB_def matchColorFromHSL_Unknown_iff)
  moreover have "Hue (getHSLFromRGB rgb) < 360"
    using getHSLFromRGB_Hue_bounds(2)[of rgb] by simp
  ultimately show ?thesis
    using lo by simp
qed

text \<open>
  C4. On six hex digits, with or without a leading \<open>#\<close>, \<^verbatim>\<open>GetColorFromHex\<close> returns,
  with a \<^verbatim>\<open>nil\<close> error, the colour that \<^verbatim>\<open>GetColorFromRGB\<close> gives to the three bytes
  decoded pair by pair in base 16.
\<close>

theorem GetColorFromHex_six_digits:
  assumes "length s = 6" and "list_all isHexDigit s"
  shows "GetColorFromHex s =
      Inr (GetColorFromRGB \<lparr>rgbRed = decodeHexPair (s ! 0) (s ! 1),
             rgbGreen = decodeHexPair (s ! 2) (s ! 3),
             rgbBlue = decodeHexPair (s ! 4) (s ! 5)\<rparr>, None)
    \<and> GetColorFromHex (CHR ''#'' # s) =
      Inr (GetColorFromRGB \<lparr>rgbRed = decodeHexPair (s ! 0) (s ! 1),
             rgbGreen = decodeHexPair (s ! 2) (s ! 3),
             rgbBlue = decodeHexPair (s ! 4) (s ! 5)\<rparr>, None)"
proof -
  from assms(1) obtain a b c d e f where s: "s = [a, b, c, d, e, f]"
    by (rule length6E)
  with assms(2) have hex: "isHexDigit a" "isHexDigit b" "isHexDigit c" "isHexDigit d"
      "isHexDigit e" "isHexDigit f"
    by simp_all
  show ?thesis
    unfolding s
    by (simp add: GetColorFromHex_six[OF isHexDigit_not_hash[OF hex(1)]]
        GetColorFromHex_hash_six getRGBFromHex_hex[OF hex])
qed

theorem GetColorFromHex_six_digits_witness:
  "GetColorFromHex ''#00ff00'' =
     Inr (GetColorFromRGB \<lparr>rgbRed = 0, rgbGreen = 255, rgbBlue = 0\<rparr>, None)
   \<and> GetColorFromHex ''00ff00'' =
     Inr (GetColorFromRGB \<lparr>rgbRed = 0, rgbGreen = 255, rgbBlue = 0\<rparr>, None)"
  using GetColorFromHex_six_digits[of "''00ff00''"]
  by (simp add: isHexDigit_def decodeHexPair_def hexDigitValue_def)

text \<open>
  C5. On three hex digits \<open>abc\<close>, with or without a leading \<open>#\<close>, the result of
  \<^verbatim>\<open>GetColorFromHex\<close> (colour and error) is its result on \<open>aabbcc\<close>.
\<close>

theorem GetColorFromHex_shorthand:
  assumes "isHexDigit a" and "isHexDigit b" and "isHexDigit c"
  shows "GetColorFromHex [a, b, c] = GetColorFromHex [a, a, b, b, c, c]
    \<and> GetColorFromHex (CHR ''#'' # [a, b, c]) = GetColorFromHex (CHR ''#'' # [a, a, b, b, c, c])
    \<and> GetColorFromHex (CHR ''#'' # [a, b, c]) = GetColorFromHex [a, b, c]"
  using isHexDigit_not_hash[OF assms(1)]
  by (simp add: GetColorFromHex_three GetColorFromHex_hash_three GetColorFromHex_six
      GetColorFromHex_hash_six)

theorem GetColorFromHex_shorthand_witness:
  "GetColorFromHex ''#0f0'' = GetColorFromHex ''#00ff00''
   \<and> GetColorFromHex ''0f0'' = GetColorFromHex ''00ff00''"
  using GetColorFromHex_shorthand[of "CHR ''0''" "CHR ''f''" "CHR ''0''"]
  by (simp add: isHexDigit_def)

text \<open>
  C6. On eight hex digits, with or without a leading \<open>#\<close>, the result of
  \<^verbatim>\<open>GetColorFromHex\<close> is its result on the first six of them: the alpha byte is
  dropped.
\<close>

theorem GetColorFromHex_alpha_discarded:
  assumes "length s = 8" and "list_all isHexDigit s"
  shows "GetColorFromHex s = GetColorFromHex (take 6 s)
    \<and> GetColorFromHex (CHR ''#'' # s) = GetColorFromHex (CHR ''#'' # take 6 s)
    \<and> GetColorFromHex (CHR ''#'' # s) = GetColorFromHex s"
proof -
  from assms(1) obtain a b c d e f g h where s: "s = [a, b, c, d, e, f, g, h]"
    by (rule length8E)
  with assms(2) have "a \<noteq> CHR ''#''"
    by (simp add: isHexDigit_not_hash)
  then show ?thesis
    unfolding s
    by (simp add: GetColorFromHex_eight GetColorFromHex_hash_eight GetColorFromHex_six
        GetColorFromHex_hash_six)
qed

theorem GetColorFromHex_alpha_discarded_witness:
  "GetColorFromHex ''#00ff0080'' = GetColorFromHex ''#00ff00''
   \<and> GetColorFromHex ''00ff0080'' = GetColorFromHex ''00ff00''"
  using GetColorFromHex_alpha_discarded[of "''00ff0080''"]
  by (simp add: isHexDigit_def)

text \<open>
  C7. The anchors of the conversion: black has hue 0, saturation 0 and lightness 0 and is
  \<open>Black\<close>; white has saturation 0 and lightness 100 (and hue 0) and is \<open>White\<close>; pure red
  has hue 0, saturation 100 and lightness 50 and is \<open>Red\<close>.
\<close>

theorem conversion_anchors:
  "getHSLFromRGB \<lparr>rgbRed = 0, rgbGreen = 0, rgbBlue = 0\<rparr> =
     \<lparr>Hue = 0, Saturation = 0, Lightness = 0\<rparr>
   \<and> GetColorFromRGB \<lparr>rgbRed = 0, rgbGreen = 0, rgbBlue = 0\<rparr> = Black
   \<and> getHSLFromRGB \<lparr>rgbRed = 255, rgbGreen = 255, rgbBlue = 255\<rparr> =
     \<lparr>Hue = 0, Saturation = 0, Lightness = 100\<rparr>
   \<and> GetColorFromRGB \<lparr>rgbRed = 255, rgbGreen = 255, rgbBlue = 255\<rparr> = White
   \<and> getHSLFromRGB \<lparr>rgbRed = 255, rgbGreen = 0, rgbBlue = 0\<rparr> =
     \<lparr>Hue = 0, Saturation = 100, Lightness = 50\<rparr>
   \<and> GetColorFromRGB \<lparr>rgbRed = 255, rgbGreen = 0, rgbBlue = 0\<rparr> = Red"
  by (simp add: GetColorFromRGB_def getHSLFromRGB_black getHSLFromRGB_white getHSLFromRGB_red
      matchColorFromHSL_def)

text \<open>
  C8. When none of the White and Black rules applies, a floored hue of 16 is Red, of 17
  Orange, of 346 Red and of 345 Purple.
\<close>

theorem matchColorFromHSL_hue_boundaries:
  assumes "\<not> whiteOrBlackRule hsl"
  shows "(\<lfloor>Hue hsl\<rfloor> = 16 \<longrightarrow> matchColorFromHSL hsl = Red)
    \<and> (\<lfloor>Hue hsl\<rfloor> = 17 \<longrightarrow> matchColorFromHSL hsl = Orange)
    \<and> (\<lfloor>Hue hsl\<rfloor> = 346 \<longrightarrow> matchColorFromHSL hsl = Red)
    \<and> (\<lfloor>Hue hsl\<rfloor> = 345 \<longrightarrow> matchColorFromHSL hsl = Purple)"
  using assms
  unfolding matchColorFromHSL_ints[OF refl refl refl] whiteOrBlackRule_ints[OF refl refl]
  by auto

theorem matchColorFromHSL_hue_boundaries_witness:
  "matchColorFromHSL \<lparr>Hue = 16, Saturation = 100, Lightness = 50\<rparr> = Red
   \<and> matchColorFromHSL \<lparr>Hue = 17, Saturation = 100, Lightness = 50\<rparr> = Orange
   \<and> matchColorFromHSL \<lparr>Hue = 346, Saturation = 100, Lightness = 50\<rparr> = Red
   \<and> matchColorFromHSL \<lparr>Hue = 345, Saturation = 100, Lightness = 50\<rparr> = Purple"
  using matchColorFromHSL_hue_boundaries[of "\<lparr>Hue = 16, Saturation = 100, Lightness = 50\<rparr>"]
    matchColorFromHSL_hue_boundaries[of "\<lparr>Hue = 17, Saturation = 100, Lightness = 50\<rparr>"]
    matchColorFromHSL_hue_boundaries[of "\<lparr>Hue = 346, Saturation = 100, Lightness = 50\<rparr>"]
    matchColorFromHSL_hue_boundaries[of "\<lparr>Hue = 345, Saturation = 100, Lightness = 50\<rparr>"]
  by (simp add: whiteOrBlackRule_def)

text \<open>
  C9, as claimed: outside the hue range from 0 up to 360, and with saturation 100 and
  lightness 50, the classifier would end in \<open>Unknown\<close>. At hue 400 it does not: rule 4
  takes every floored hue from 346 on.
\<close>

theorem GetColorFromHSL_hue_400_counterexample:
  "\<not> (0 \<le> (400::real) \<and> (400::real) < 360)
   \<and> \<not> whiteOrBlackRule \<lparr>Hue = 400, Saturation = 100, Lightness = 50\<rparr>
   \<and> GetColorFromHSL \<lparr>Hue = 400, Saturation = 100, Lightness = 50\<rparr> \<noteq> Unknown"
  by (simp add: GetColorFromHSL_def matchColorFromHSL_def whiteOrBlackRule_def)

text \<open>
  C9, amended. \<^verbatim>\<open>GetColorFromHSL\<close> returns a colour for every real hue, saturation
  and lightness; when none of the White and Black rules applies, a hue below 0 gives
  \<open>Unknown\<close> and a hue of 360 or more gives \<open>Red\<close>.
\<close>

theorem GetColorFromHSL_outside_hue_range:
  assumes "\<not> whiteOrBlackRule hsl"
  shows "(\<exists>color. GetColorFromHSL hsl = color)
    \<and> (Hue hsl < 0 \<longrightarrow> GetColorFromHSL hsl = Unknown)
    \<and> (360 \<le> Hue hsl \<longrightarrow> GetColorFromHSL hsl = Red)"
proof -
  have "Hue hsl < 0 \<Longrightarrow> \<lfloor>Hue hsl\<rfloor> < 0"
    by (simp add: floor_less_iff)
  moreover have "360 \<le> Hue hsl \<Longrightarrow> 360 \<le> \<lfloor>Hue hsl\<rfloor>"
    by (simp add: le_floor_iff)
  ultimately show ?thesis
    using assms
    unfolding GetColorFromHSL_def matchColorFromHSL_ints[OF refl refl refl]
      whiteOrBlackRule_ints[OF refl refl]
    by auto
qed

theorem GetColorFromHSL_outside_hue_range_witness:
  "GetColorFromHSL \<lparr>Hue = - 1 / 2, Saturation = 100, Lightness = 50\<rparr> = Unknown
   \<and> GetColorFromHSL \<lparr>Hue = 400, Saturation = 100, Lightness = 50\<rparr> = Red"
  using GetColorFromHSL_outside_hue_range[of "\<lparr>Hue = - 1 / 2, Saturation = 100, Lightness = 50\<rparr>"]
    GetColorFromHSL_outside_hue_range[of "\<lparr>Hue = 400, Saturation = 100, Lightness = 50\<rparr>"]
  by (simp add: whiteOrBlackRule_def)

text \<open>
  C10. On eight characters of which the first six are hex digits, with or without a
  leading \<open>#\<close>, \<^verbatim>\<open>GetColorFromHex\<close> returns a colour and a \<^verbatim>\<open>nil\<close> error, whatever
  the last two characters are.
\<close>

theorem GetColorFromHex_alpha_not_validated:
  assumes "length s = 8" and "list_all isHexDigit (take 6 s)"
  shows "\<exists>color. GetColorFromHex s = Inr (color, None)
    \<and> GetColorFromHex (CHR ''#'' # s) = Inr (color, None)"
proof -
  from assms(1) obtain a b c d e f g h where s: "s = [a, b, c, d, e, f, g, h]"
    by (rule length8E)
  with assms(2) have hex: "isHexDigit a" "isHexDigit b" "isHexDigit c" "isHexDigit d"
      "isHexDigit e" "isHexDigit f"
    by simp_all
  show ?thesis
    unfolding s
    by (simp add: GetColorFromHex_eight[OF isHexDigit_not_hash[OF hex(1)]]
        GetColorFromHex_hash_eight getRGBFromHex_hex[OF hex])
qed

theorem GetColorFromHex_alpha_not_validated_witness:
  "\<exists>color. GetColorFromHex ''00ff00zz'' = Inr (color, None)
    \<and> GetColorFromHex ''#00ff00zz'' = Inr (color, None)"
  using GetColorFromHex_alpha_not_validated[of "''00ff00zz''"]
  by (simp add: isHexDigit_def)

end
